theory Spec2Isabelle
  imports Complex_Main "HOL-Library.Sublist"
begin

section \<open>Strings of the JavaScript runtime\<close>

text \<open>
  The calendar command (the second module of \<^verbatim>\<open>reminder.ts\<close>, lines 113 to 577) works on
  JavaScript strings. A string is modelled as a \<^typ>\<open>string\<close>, one character per code
  unit. Case mapping and white space are those of the ASCII range: the letters
  \<^verbatim>\<open>A\<close> to \<^verbatim>\<open>Z\<close> and the six ASCII white-space characters. Characters outside that
  range are left alone by the case mappings and are not white space.
\<close>

definition upperAlphabet :: string where
  "upperAlphabet = ''ABCDEFGHIJKLMNOPQRSTUVWXYZ''"

definition lowerAlphabet :: string where
  "lowerAlphabet = ''abcdefghijklmnopqrstuvwxyz''"

definition toLowerChar :: "char \<Rightarrow> char" where
  "toLowerChar c = (case map_of (zip upperAlphabet lowerAlphabet) c of Some d \<Rightarrow> d | None \<Rightarrow> c)"

definition toUpperChar :: "char \<Rightarrow> char" where
  "toUpperChar c = (case map_of (zip lowerAlphabet upperAlphabet) c of Some d \<Rightarrow> d | None \<Rightarrow> c)"

definition toLowerCase :: "string \<Rightarrow> string" where
  "toLowerCase s = map toLowerChar s"

definition toUpperCase :: "string \<Rightarrow> string" where
  "toUpperCase s = map toUpperChar s"

definition isWhiteSpace :: "char \<Rightarrow> bool" where
  "isWhiteSpace c = (c \<in> set [CHR 0x09, CHR 0x0A, CHR 0x0B, CHR 0x0C, CHR 0x0D, CHR '' ''])"

definition trim :: "string \<Rightarrow> string" where
  "trim s = rev (dropWhile isWhiteSpace (rev (dropWhile isWhiteSpace s)))"

text \<open>\<^verbatim>\<open>s.includes(t)\<close>: \<open>t\<close> occurs in \<open>s\<close> as a contiguous run of characters.\<close>

definition str_includes :: "string \<Rightarrow> string \<Rightarrow> bool" where
  "str_includes s t = sublist t s"

text \<open>
  \<^verbatim>\<open>s.split(d)\<close> for a one-character separator. The result always has at least one
  segment: the empty string splits into one empty segment.
\<close>

fun split :: "char \<Rightarrow> string \<Rightarrow> string list" where
  "split d [] = [[]]"
| "split d (c # cs) =
     (if c = d then [] # split d cs
      else (case split d cs of [] \<Rightarrow> [[c]] | p # ps \<Rightarrow> (c # p) # ps))"

definition isDigit :: "char \<Rightarrow> bool" where
  "isDigit c = (c \<in> set ''0123456789'')"

text \<open>
  \<^verbatim>\<open>String(n)\<close> for an integer, as the template literals of the embed render page and
  event numbers.
\<close>

fun showNat :: "nat \<Rightarrow> string" where
  "showNat n =
     (if n < 10 then [''0123456789'' ! n]
      else showNat (n div 10) @ [''0123456789'' ! (n mod 10)])"

declare showNat.simps [simp del]

definition showInt :: "int \<Rightarrow> string" where
  "showInt i = (if i < 0 then ''-'' @ showNat (nat (- i)) else showNat (nat i))"

text \<open>
  The operator \<^verbatim>\<open>a || b\<close> on two optional strings (absent and empty are both falsy),
  and \<^verbatim>\<open>a || ''\<close>.
\<close>

definition orElse :: "string option \<Rightarrow> string option \<Rightarrow> string option" where
  "orElse a b = (case a of None \<Rightarrow> b | Some s \<Rightarrow> if s = [] then b else Some s)"

definition orEmpty :: "string option \<Rightarrow> string" where
  "orEmpty a = (case a of None \<Rightarrow> [] | Some s \<Rightarrow> s)"

section \<open>Option validation\<close>

text \<open>
  \<^verbatim>\<open>classNameRegex = /^cisc\d{3}$/i\<close> (line 310): seven characters, the first four
  \<^verbatim>\<open>cisc\<close> in either case, the last three digits.
\<close>

definition classNameRegex_test :: "string \<Rightarrow> bool" where
  "classNameRegex_test s =
     (length s = 7 \<and> toLowerCase (take 4 s) = ''cisc'' \<and> list_all isDigit (drop 4 s))"

definition monthNames :: "string list" where
  "monthNames = [''january'', ''february'', ''march'', ''april'', ''may'', ''june'', ''july'',
     ''august'', ''september'', ''october'', ''november'', ''december'']"

text \<open>
  \<^verbatim>\<open>dateRegex = /^(?:january|...|december) (\d{1,2})$/\<close> (line 312): a lower-case month
  name, one space, then one or two digits up to the end of the input. The regular
  expression has no \<^verbatim>\<open>i\<close> flag, and the captured digits are not used afterwards.
\<close>

definition dateRegex_test :: "string \<Rightarrow> bool" where
  "dateRegex_test s =
     list_ex (\<lambda>m. prefix (m @ '' '') s \<and>
        (let d = drop (length m + 1) s
         in (length d = 1 \<or> length d = 2) \<and> list_all isDigit d)) monthNames"

text \<open>The five options of the command (lines 202 to 233), none required.\<close>

record options =
  classname :: "string option"
  locationtype :: "string option"
  eventholder :: "string option"
  eventdate :: "string option"
  dayofweek :: "string option"

text \<open>
  The filter values computed from the options (lines 303 to 307), which every later
  closure of \<^verbatim>\<open>run\<close> reads: \<open>locType\<close> is the source's \<^verbatim>\<open>locationType\<close> and \<open>holder\<close>
  its \<^verbatim>\<open>eventHolder\<close>.
\<close>

record criteria =
  className :: string
  locType :: string
  holder :: string
  eventDate :: string
  dayOfWeek :: string

definition readOptions :: "options \<Rightarrow> criteria" where
  "readOptions opts =
     \<lparr> className = orEmpty (classname opts),
       locType = orEmpty (map_option toUpperCase (locationtype opts)),
       holder = orEmpty (eventholder opts),
       eventDate = orEmpty (eventdate opts),
       dayOfWeek = orEmpty (map_option toLowerCase (dayofweek opts)) \<rparr>"

definition msgInvalidClassName :: string where
  \<open>msgInvalidClassName = ''Invalid class name format. Please enter a class name starting with "cisc" followed by exactly three digits (e.g., "cisc123").''\<close>

definition msgInvalidLocationType :: string where
  \<open>msgInvalidLocationType = ''Invalid location type. Please enter "IP" for In-Person or "V" for Virtual events.''\<close>

definition msgInvalidDate :: string where
  \<open>msgInvalidDate = ''Invalid date format. Please enter a date starting with "month" followed by 1-2 digits (e.g., "december 9").''\<close>

text \<open>
  The three checks of lines 315 to 350, in the order of the source: the first one that
  fails gives the text of the ephemeral reply, after which \<^verbatim>\<open>run\<close> returns. There is no
  check of \<^verbatim>\<open>eventholder\<close> and none of \<^verbatim>\<open>dayofweek\<close>.
\<close>

definition validate :: "criteria \<Rightarrow> string option" where
  "validate c =
     (if className c \<noteq> [] \<and> \<not> classNameRegex_test (className c) then Some msgInvalidClassName
      else if locType c \<noteq> [] \<and> locType c \<notin> set [''IP'', ''V''] then Some msgInvalidLocationType
      else if eventDate c \<noteq> [] \<and> \<not> dateRegex_test (eventDate c) then Some msgInvalidDate
      else None)"

section \<open>Raw events and their normalisation\<close>

text \<open>
  What the date functions of the runtime compute is not code of the command; the model
  takes it as a parameter. \<open>toLocaleString rt s\<close> is
  \<^verbatim>\<open>new Date(s).toLocaleString('en-US', {month: 'long', day: 'numeric', ...})\<close>, and
  \<open>getDay rt x\<close> is \<^verbatim>\<open>new Date(x).getDay()\<close>, with \<open>None\<close> for \<^verbatim>\<open>NaN\<close>.
\<close>

record runtime =
  toLocaleString :: "string \<Rightarrow> string"
  getDay :: "string option \<Rightarrow> nat option"

text \<open>
  A start or end instant of the provider: a date-time value for a timed event, a
  date-only value for an all-day event.
\<close>

record eventTime =
  dateTime :: "string option"
  date :: "string option"

text \<open>
  A provider record. The fields \<open>id'\<close> and \<open>end'\<close> are the source's \<^verbatim>\<open>id\<close> and
  \<^verbatim>\<open>end\<close>. The provider leaves \<^verbatim>\<open>summary\<close> out of an event without a title.
\<close>

record rawEvent =
  id' :: string
  summary :: "string option"
  start :: "eventTime option"
  end' :: "eventTime option"
  location :: "string option"

text \<open>
  The interface \<^verbatim>\<open>Event\<close> (lines 187 to 196); the fields \<open>dateE\<close>, \<open>startE\<close>, \<open>endE\<close>
  and \<open>locationE\<close> are its \<^verbatim>\<open>date\<close>, \<^verbatim>\<open>start\<close>, \<^verbatim>\<open>end\<close> and \<^verbatim>\<open>location\<close>.
\<close>

record Event =
  eventId :: string
  courseID :: string
  instructor :: string
  dateE :: string
  startE :: string
  endE :: string
  locationE :: string
  locationType :: string

datatype error = TypeError

definition msgNone :: string where
  \<open>msgNone = ''`NONE`''\<close>

definition formatDateTime :: "runtime \<Rightarrow> string option \<Rightarrow> string" where
  "formatDateTime rt dt =
     (case dt of None \<Rightarrow> msgNone
      | Some s \<Rightarrow> if s = [] then msgNone else toLocaleString rt s)"

text \<open>\<^verbatim>\<open>t?.dateTime || t?.date\<close> for an optional instant \<open>t\<close>.\<close>

definition instant :: "eventTime option \<Rightarrow> string option" where
  "instant t = (case t of None \<Rightarrow> None | Some u \<Rightarrow> orElse (dateTime u) (date u))"

text \<open>\<^verbatim>\<open>eventParts[k]?.trim() || ''\<close>.\<close>

definition partTrim :: "string list \<Rightarrow> nat \<Rightarrow> string" where
  "partTrim eventParts k = (if k < length eventParts then trim (eventParts ! k) else [])"

text \<open>
  The object \<^verbatim>\<open>eventData\<close> built for each fetched event (lines 380 to 390).
  \<^verbatim>\<open>event.summary.split('-')\<close> is a method call on the summary: when the summary is
  absent it throws a \<^verbatim>\<open>TypeError\<close>.
\<close>

definition eventData :: "runtime \<Rightarrow> rawEvent \<Rightarrow> error + Event" where
  "eventData rt event =
     (case summary event of
        None \<Rightarrow> Inl TypeError
      | Some s \<Rightarrow>
          (let eventParts = split (CHR ''-'') s
           in Inr \<lparr> eventId = id' event,
                    courseID = partTrim eventParts 0,
                    instructor = partTrim eventParts 1,
                    dateE = formatDateTime rt (instant (start event)),
                    startE = orEmpty (instant (start event)),
                    endE = orEmpty (instant (end' event)),
                    locationE = orEmpty (location event),
                    locationType =
                      (if 2 < length eventParts \<and>
                          str_includes (toLowerCase (trim (eventParts ! 2))) ''virtual''
                       then ''V'' else ''IP'') \<rparr>))"

section \<open>The filter\<close>

text \<open>
  \<^verbatim>\<open>event.summary && event.summary.toLowerCase().includes(t)\<close>, read as a truth value.
\<close>

definition summaryIncludes :: "rawEvent \<Rightarrow> string \<Rightarrow> bool" where
  "summaryIncludes event t =
     (case summary event of
        None \<Rightarrow> False
      | Some s \<Rightarrow> s \<noteq> [] \<and> str_includes (toLowerCase s) t)"

text \<open>
  \<^verbatim>\<open>daysOfWeekMap\<close> (lines 324 to 332). A key that is not in the object literal
  reads as \<^verbatim>\<open>undefined\<close>, or as an inherited member of \<^verbatim>\<open>Object.prototype\<close>, which is
  not a number: in both cases \<open>None\<close>.
\<close>

definition daysOfWeekMap :: "string \<rightharpoonup> nat" where
  "daysOfWeekMap = map_of [(''sunday'', 0), (''monday'', 1), (''tuesday'', 2),
     (''wednesday'', 3), (''thursday'', 4), (''friday'', 5), (''saturday'', 6)]"

text \<open>
  Lines 418 to 422. \<^verbatim>\<open>event.start?.dateTime.toLowerCase()\<close> is \<^verbatim>\<open>undefined\<close> when the
  event has no start, and throws a \<^verbatim>\<open>TypeError\<close> when the start has no date-time value.
\<close>

definition matchEventDate :: "runtime \<Rightarrow> criteria \<Rightarrow> rawEvent \<Rightarrow> error + bool" where
  "matchEventDate rt c event =
     (if eventDate c = [] then Inr True
      else
        (case (case start event of
                 None \<Rightarrow> Inr None
               | Some t \<Rightarrow> (case dateTime t of None \<Rightarrow> Inl TypeError
                            | Some dt \<Rightarrow> Inr (Some (toLowerCase dt)))) of
           Inl e \<Rightarrow> Inl e
         | Inr arg \<Rightarrow>
             (let formattedEventDate = formatDateTime rt arg
              in Inr (formattedEventDate \<noteq> [] \<and>
                      str_includes (toLowerCase formattedEventDate) (toLowerCase (eventDate c))))))"

definition matchClassName :: "criteria \<Rightarrow> rawEvent \<Rightarrow> bool" where
  "matchClassName c event =
     (if className c = [] then True else summaryIncludes event (toLowerCase (className c)))"

definition matchDayOfWeek :: "runtime \<Rightarrow> criteria \<Rightarrow> rawEvent \<Rightarrow> bool" where
  "matchDayOfWeek rt c event =
     (if dayOfWeek c = [] then True
      else (case getDay rt (instant (start event)) of
              None \<Rightarrow> False
            | Some eventDayOfWeek \<Rightarrow> daysOfWeekMap (dayOfWeek c) = Some eventDayOfWeek))"

definition matchLocationType :: "criteria \<Rightarrow> rawEvent \<Rightarrow> bool" where
  "matchLocationType c event =
     (if locType c = [] then True
      else if locType c = ''IP'' then summaryIncludes event ''in person''
      else if locType c = ''V'' then summaryIncludes event ''virtual''
      else True)"

definition matchEventHolder :: "criteria \<Rightarrow> rawEvent \<Rightarrow> bool" where
  "matchEventHolder c event =
     (if holder c = [] then True else summaryIncludes event (toLowerCase (holder c)))"

text \<open>The callback of \<^verbatim>\<open>events.filter\<close> (lines 406 to 446).\<close>

definition filterCallback :: "runtime \<Rightarrow> criteria \<Rightarrow> rawEvent \<Rightarrow> error + bool" where
  "filterCallback rt c event =
     (case matchEventDate rt c event of
        Inl e \<Rightarrow> Inl e
      | Inr d \<Rightarrow> Inr (matchClassName c event \<and> matchLocationType c event \<and>
                      matchEventHolder c event \<and> d \<and> matchDayOfWeek rt c event))"

text \<open>
  \<^verbatim>\<open>events.filter(callback)\<close>: the callback runs on the events in order, and a throw of
  the callback ends the whole call.
\<close>

fun filteredEvents :: "runtime \<Rightarrow> criteria \<Rightarrow> rawEvent list \<Rightarrow> error + rawEvent list" where
  "filteredEvents rt c [] = Inr []"
| "filteredEvents rt c (event # events) =
     (case filterCallback rt c event of
        Inl e \<Rightarrow> Inl e
      | Inr keep \<Rightarrow>
          (case filteredEvents rt c events of
             Inl e \<Rightarrow> Inl e
           | Inr rest \<Rightarrow> Inr (if keep then event # rest else rest)))"

section \<open>Pages and their rendering\<close>

text \<open>
  The display records of lines 454 to 461; \<open>eventHolderP\<close>, \<open>startP\<close>, \<open>endP\<close> and
  \<open>locationP\<close> are the source's \<^verbatim>\<open>eventHolder\<close>, \<^verbatim>\<open>start\<close>, \<^verbatim>\<open>end\<close> and \<^verbatim>\<open>location\<close>.
  A segment that the summary does not have is \<^verbatim>\<open>undefined\<close>, here \<open>None\<close>.
\<close>

record parsedEvent =
  name :: string
  eventHolderP :: "string option"
  eventType :: "string option"
  startP :: string
  endP :: string
  locationP :: string

text \<open>\<^verbatim>\<open>parts[k]\<close>, which is \<^verbatim>\<open>undefined\<close> past the end of the array.\<close>

definition part :: "string list \<Rightarrow> nat \<Rightarrow> string option" where
  "part parts k = (if k < length parts then Some (parts ! k) else None)"

definition parseEvent :: "runtime \<Rightarrow> nat \<Rightarrow> rawEvent \<Rightarrow> error + parsedEvent" where
  "parseEvent rt index event =
     (case summary event of
        None \<Rightarrow> Inl TypeError
      | Some s \<Rightarrow>
          (let parts = split (CHR ''-'') s
           in Inr \<lparr> name = (case orElse (part parts 0) None of
                              Some n \<Rightarrow> n
                            | None \<Rightarrow> ''Event '' @ showNat (index + 1)),
                    eventHolderP = part parts 1,
                    eventType = part parts 2,
                    startP = formatDateTime rt (instant (start event)),
                    endP = formatDateTime rt (instant (end' event)),
                    locationP = (case orElse (location event) None of
                                   Some l \<Rightarrow> l | None \<Rightarrow> msgNone) \<rparr>))"

text \<open>\<^verbatim>\<open>filteredEvents.map((event, index) => ...)\<close>, with the index counted from \<open>index\<close>.\<close>

fun parsedEventsFrom :: "runtime \<Rightarrow> nat \<Rightarrow> rawEvent list \<Rightarrow> error + parsedEvent list" where
  "parsedEventsFrom rt index [] = Inr []"
| "parsedEventsFrom rt index (event # events) =
     (case parseEvent rt index event of
        Inl e \<Rightarrow> Inl e
      | Inr p \<Rightarrow> (case parsedEventsFrom rt (Suc index) events of
                    Inl e \<Rightarrow> Inl e
                  | Inr ps \<Rightarrow> Inr (p # ps)))"

definition parsedEvents :: "runtime \<Rightarrow> rawEvent list \<Rightarrow> error + parsedEvent list" where
  "parsedEvents rt events = parsedEventsFrom rt 0 events"

definition EVENTS_PER_PAGE :: nat where
  "EVENTS_PER_PAGE = 3"

text \<open>
  \<^verbatim>\<open>xs.slice(b, e)\<close>: a negative bound counts from the end, every bound is clamped to
  the array, and an end before the start gives the empty array.
\<close>

definition slice :: "'a list \<Rightarrow> int \<Rightarrow> int \<Rightarrow> 'a list" where
  "slice xs b e =
     (let n = int (length xs);
          k = (if b < 0 then max (n + b) 0 else min b n);
          f = (if e < 0 then max (n + e) 0 else min e n)
      in take (nat (f - k)) (drop (nat k) xs))"

text \<open>
  \<^verbatim>\<open>Math.ceil(parsedEvents.length / EVENTS_PER_PAGE)\<close>. The quotient of the source is a
  floating-point number; for every array length its ceiling is that of the exact quotient.
\<close>

definition pageCount :: "'a list \<Rightarrow> int" where
  "pageCount xs = \<lceil>real (length xs) / real EVENTS_PER_PAGE\<rceil>"

text \<open>The slice of the events that \<^verbatim>\<open>generateEmbed(page)\<close> renders (line 473).\<close>

definition pageOf :: "'a list \<Rightarrow> int \<Rightarrow> 'a list" where
  "pageOf xs page = slice xs (page * int EVENTS_PER_PAGE) ((page + 1) * int EVENTS_PER_PAGE)"

record embed =
  title :: string
  embedFields :: "(string \<times> string) list"

text \<open>How a template literal prints a value that may be \<^verbatim>\<open>undefined\<close>.\<close>

definition showOpt :: "string option \<Rightarrow> string" where
  "showOpt x = (case x of None \<Rightarrow> ''undefined'' | Some s \<Rightarrow> s)"

definition newline :: string where
  "newline = [CHR 0x0A]"

text \<open>One field of the embed (the record field \<open>embedFields\<close>), a name and a value (lines 475 to 478).\<close>

definition eventField :: "int \<Rightarrow> nat \<times> parsedEvent \<Rightarrow> string \<times> string" where
  "eventField page ie =
     (case ie of (index, event) \<Rightarrow>
       (''Event '' @ showInt (page * int EVENTS_PER_PAGE + int index + 1) @ '': '' @ name event,
        ''**Event Holder:** '' @ showOpt (eventHolderP event) @ newline @
        ''**Start:** '' @ startP event @ newline @
        ''**End:** '' @ endP event @ newline @
        ''**Location:** '' @ locationP event @ newline @
        ''**Event Type:** '' @ showOpt (eventType event) @ newline @ newline))"

text \<open>
  The embed builder of the chat library validates what it is given:
  \<^verbatim>\<open>embed.addFields\<close> throws when the name of a field is longer than 256 characters or
  its value longer than 1024.
\<close>

datatype builderError = ValidationError

definition fieldAccepted :: "string \<times> string \<Rightarrow> bool" where
  "fieldAccepted f = (length (fst f) \<le> 256 \<and> length (snd f) \<le> 1024)"

text \<open>
  \<^verbatim>\<open>generateEmbed\<close> (lines 467 to 482); the colour of the embed is left out. The fields
  are added one by one, so the first field that the builder refuses ends the call. The
  other limits of the builder are out of reach here: a page has at most three fields,
  no name and no value is empty, and the title is made of a class name that has passed
  its check and of two page numbers.
\<close>

definition generateEmbed :: "criteria \<Rightarrow> parsedEvent list \<Rightarrow> int \<Rightarrow> builderError + embed" where
  "generateEmbed c parsed page =
     (let e = \<lparr> title = ''Upcoming Events '' @
                 (if className c \<noteq> [] then ''for '' @ className c else []) @ '' ('' @
                 (if locType c \<noteq> [] then (if locType c = ''IP'' then ''In-Person'' else ''Virtual'')
                  else []) @
                 '') (Page '' @ showInt (page + 1) @ '' of '' @ showInt (pageCount parsed) @ '')'',
               embedFields = map (eventField page) (enumerate 0 (pageOf parsed page)) \<rparr>
      in if list_all fieldAccepted (embedFields e) then Inr e else Inl ValidationError)"

record button =
  customId :: string
  label :: string
  disabled :: bool

record messageView =
  embeds :: "embed list"
  components :: "button list"

text \<open>The row of buttons that \<^verbatim>\<open>updateMessage(page, message)\<close> builds (lines 491 to 506).\<close>

definition pageButtons :: "parsedEvent list \<Rightarrow> int \<Rightarrow> button list" where
  "pageButtons parsed page =
     [\<lparr> customId = ''prev'', label = ''Previous'', disabled = (page = 0) \<rparr>,
      \<lparr> customId = ''next'', label = ''Next'', disabled = (page = pageCount parsed - 1) \<rparr>,
      \<lparr> customId = ''done'', label = ''Done'', disabled = False \<rparr>]"

text \<open>The row of the first message (lines 514 to 529).\<close>

definition initialButtons :: "rawEvent list \<Rightarrow> button list" where
  "initialButtons filtered =
     [\<lparr> customId = ''prev'', label = ''Previous'', disabled = True \<rparr>,
      \<lparr> customId = ''next'', label = ''Next'', disabled = (length filtered \<le> EVENTS_PER_PAGE) \<rparr>,
      \<lparr> customId = ''done'', label = ''Done'', disabled = False \<rparr>]"

text \<open>
  The message that \<^verbatim>\<open>updateMessage(page, message)\<close> edits in (lines 489 to 509); a throw
  of \<^verbatim>\<open>generateEmbed\<close> leaves the function before the edit.
\<close>

definition updateMessage :: "criteria \<Rightarrow> parsedEvent list \<Rightarrow> int \<Rightarrow> builderError + messageView" where
  "updateMessage c parsed page =
     (case generateEmbed c parsed page of
        Inl e \<Rightarrow> Inl e
      | Inr em \<Rightarrow> Inr \<lparr> embeds = [em], components = pageButtons parsed page \<rparr>)"

section \<open>Effects, the paging session and the command\<close>

text \<open>
  What the command does to the outside, in the order it does it. \<open>Reply m e\<close> is
  \<^verbatim>\<open>interaction.reply\<close> with content \<open>m\<close>, ephemeral iff \<open>e\<close>; \<open>StripComponents\<close> is
  \<^verbatim>\<open>message.edit({ components: [] })\<close>.
\<close>

datatype effect =
    DbConnect
  | Reply string bool
  | LoadToken
  | Consent
  | SaveToken
  | ProviderQuery
  | DbUpsert Event
  | FollowUp string
  | CreateDM
  | Send messageView
  | CreateCollector
  | Edit messageView
  | StripComponents
  | ButtonReply string
  | DeferUpdate

text \<open>
  The state of one paging session: the variable \<^verbatim>\<open>currentPage\<close> of line 464, and whether
  the collector has ended. An ended collector delivers no further button event.
\<close>

record session =
  currentPage :: int
  ended :: bool

definition initialSession :: session where
  "initialSession = \<lparr> currentPage = 0, ended = False \<rparr>"

definition msgTerminated :: string where
  "msgTerminated = ''Collector manually terminated.''"

text \<open>
  The handler of the collector's \<^verbatim>\<open>collect\<close> event (lines 538 to 549) on a button event
  with the given \<^verbatim>\<open>customId\<close>. \<^verbatim>\<open>collector.stop()\<close> runs the \<^verbatim>\<open>end\<close> handler of lines 551
  to 553, which strips the buttons as well. When \<^verbatim>\<open>updateMessage\<close> throws, the page index
  has been changed already and the handler ends without an edit and without an
  acknowledgement.
\<close>

definition collect :: "criteria \<Rightarrow> parsedEvent list \<Rightarrow> string \<Rightarrow> session \<Rightarrow> session \<times> effect list" where
  "collect c parsed cid s =
     (if ended s then (s, [])
      else if cid = ''done''
      then (s\<lparr>ended := True\<rparr>, [StripComponents, StripComponents, ButtonReply msgTerminated])
      else
        (let p1 = (if cid = ''prev'' then currentPage s - 1 else currentPage s);
             p2 = (if cid = ''next'' then p1 + 1 else p1)
         in (s\<lparr>currentPage := p2\<rparr>,
             (case updateMessage c parsed p2 of
                Inl e \<Rightarrow> []
              | Inr view \<Rightarrow> [Edit view, DeferUpdate]))))"

text \<open>The end of the collector after its 300 seconds (lines 551 to 553).\<close>

definition timeout :: "session \<Rightarrow> session \<times> effect list" where
  "timeout s = (if ended s then (s, []) else (s\<lparr>ended := True\<rparr>, [StripComponents]))"

text \<open>
  Whether the button \<open>cid\<close> can be pressed in a view: it is one of the view's buttons
  and is not disabled.
\<close>

definition enabled :: "button list \<Rightarrow> string \<Rightarrow> bool" where
  "enabled row cid = list_ex (\<lambda>b. customId b = cid \<and> \<not> disabled b) row"

text \<open>
  The answers of the outside world to one invocation: whether the database connection
  opens, whether a saved token loads, whether the consent flow and the saving of its
  token succeed, what the provider returns (\<^verbatim>\<open>res.data.items\<close>, possibly absent, or a
  failed query), and whether the private channel opens and takes the first message.
\<close>

datatype providerAnswer = QueryFails | Items "rawEvent list option"

datatype dmAnswer = DmFails | SendFails | Delivered

record env =
  dbConnects :: bool
  tokenLoads :: bool
  consentSucceeds :: bool
  tokenSaves :: bool
  provider :: providerAnswer
  dm :: dmAnswer

datatype outcome = Returned | Thrown

definition msgAuthenticating :: string where
  "msgAuthenticating = ''Authenticating and fetching events...''"

definition msgNoEvents :: string where
  "msgNoEvents = ''No events found over the next 10 days.''"

definition msgNoMatch :: string where
  "msgNoMatch = ''No events found matching the specified filters.''"

definition msgFailed :: string where
  "msgFailed = ''Failed to retrieve calendar events.''"

definition msgAuthError :: string where
  "msgAuthError = ''An error occurred during authentication or event retrieval.''"

text \<open>
  \<^verbatim>\<open>authorize\<close> (lines 266 to 276): its effects, and whether it returned a client. A
  saved token that does not load is not an error; a failed consent flow and a failed
  saving of the new token are. The client of a successful consent flow carries
  credentials, so its token is saved.
\<close>

definition authorize :: "env \<Rightarrow> effect list \<times> bool" where
  "authorize w =
     (if tokenLoads w then ([LoadToken], True)
      else if \<not> consentSucceeds w then ([LoadToken, Consent], False)
      else ([LoadToken, Consent, SaveToken], tokenSaves w))"

text \<open>
  \<^verbatim>\<open>events.length\<close> normalisations and writes, up to the first normalisation that throws.
\<close>

fun storeEffects :: "runtime \<Rightarrow> rawEvent list \<Rightarrow> effect list \<times> error option" where
  "storeEffects rt [] = ([], None)"
| "storeEffects rt (event # events) =
     (case eventData rt event of
        Inl e \<Rightarrow> ([], Some e)
      | Inr d \<Rightarrow> (case storeEffects rt events of (fx, r) \<Rightarrow> (DbUpsert d # fx, r)))"

text \<open>
  The display part of \<^verbatim>\<open>listEvents\<close> (lines 453 to 553), up to the creation of the
  collector. The private channel is opened before the first embed is built; a channel
  that does not open, a throw of \<^verbatim>\<open>generateEmbed\<close> and a message that is not delivered
  all end in the \<^verbatim>\<open>catch\<close> of \<^verbatim>\<open>listEvents\<close>.
\<close>

definition openSession :: "runtime \<Rightarrow> env \<Rightarrow> criteria \<Rightarrow> rawEvent list \<Rightarrow> effect list" where
  "openSession rt w c filtered =
     (case parsedEvents rt filtered of
        Inl e \<Rightarrow> [FollowUp msgFailed]
      | Inr parsed \<Rightarrow>
          (if dm w = DmFails then [CreateDM, FollowUp msgFailed]
           else
             (case generateEmbed c parsed 0 of
                Inl e \<Rightarrow> [CreateDM, FollowUp msgFailed]
              | Inr initialEmbed \<Rightarrow>
                  [CreateDM,
                   Send \<lparr> embeds = [initialEmbed], components = initialButtons filtered \<rparr>,
                   (if dm w = SendFails then FollowUp msgFailed else CreateCollector)])))"

text \<open>
  \<^verbatim>\<open>listEvents\<close> (lines 352 to 562). Everything after the query runs inside one
  \<^verbatim>\<open>try\<close>, whose \<^verbatim>\<open>catch\<close> sends the failure message.
\<close>

definition listEvents :: "runtime \<Rightarrow> env \<Rightarrow> criteria \<Rightarrow> effect list" where
  "listEvents rt w c =
     ProviderQuery #
     (case provider w of
        QueryFails \<Rightarrow> [FollowUp msgFailed]
      | Items items \<Rightarrow>
          (let events = (case items of None \<Rightarrow> [] | Some xs \<Rightarrow> xs)
           in if events = [] then [FollowUp msgNoEvents]
              else
                (case storeEffects rt events of
                   (fx, Some e) \<Rightarrow> fx @ [FollowUp msgFailed]
                 | (fx, None) \<Rightarrow>
                     fx @
                     (case filteredEvents rt c events of
                        Inl e \<Rightarrow> [FollowUp msgFailed]
                      | Inr filtered \<Rightarrow>
                          if filtered = [] then [FollowUp msgNoMatch]
                          else openSession rt w c filtered))))"

text \<open>
  \<^verbatim>\<open>run\<close> (lines 235 to 576): the database connection of line 298 comes first, then the
  reading and the validation of the options, then the authorisation and the listing.
\<close>

definition run :: "runtime \<Rightarrow> env \<Rightarrow> options \<Rightarrow> effect list \<times> outcome" where
  "run rt w opts =
     (if \<not> dbConnects w then ([DbConnect], Thrown)
      else
        (let c = readOptions opts
         in case validate c of
              Some m \<Rightarrow> ([DbConnect, Reply m True], Returned)
            | None \<Rightarrow>
                (case authorize w of
                   (fx, ok) \<Rightarrow>
                     ([DbConnect, Reply msgAuthenticating False] @ fx @
                      (if ok then listEvents rt w c else [FollowUp msgAuthError]),
                      Returned))))"

section \<open>Sample inputs\<close>

text \<open>
  Concrete inputs for the evaluated examples below: a runtime in the UTC time zone that
  knows three instants (9 December 2024 is a Monday, 10 December 2024 a Tuesday), a timed
  event, an all-day event and an event without a title, an environment in which every outside call succeeds and the
  provider returns the given events, and an invocation without options.
\<close>

definition sampleRuntime :: runtime where
  "sampleRuntime =
     \<lparr> toLocaleString = (\<lambda>s. case map_of
           [(''2024-12-09T15:00:00Z'', ''December 9 at 03:00 PM UTC''),
            (''2024-12-09t15:00:00z'', ''December 9 at 03:00 PM UTC''),
            (''2024-12-09T16:00:00Z'', ''December 9 at 04:00 PM UTC''),
            (''2024-12-10'', ''December 10 at 12:00 AM UTC'')] s of
           Some r \<Rightarrow> r | None \<Rightarrow> ''Invalid Date''),
       getDay = (\<lambda>x. case x of None \<Rightarrow> None
           | Some s \<Rightarrow> map_of [(''2024-12-09T15:00:00Z'', 1), (''2024-12-10'', 2)] s) \<rparr>"

definition timedEvent :: "string \<Rightarrow> string \<Rightarrow> rawEvent" where
  "timedEvent i s =
     \<lparr> id' = i, summary = Some s,
       start = Some \<lparr> dateTime = Some ''2024-12-09T15:00:00Z'', date = None \<rparr>,
       end' = Some \<lparr> dateTime = Some ''2024-12-09T16:00:00Z'', date = None \<rparr>,
       location = None \<rparr>"

definition allDayEvent :: "string \<Rightarrow> string \<Rightarrow> rawEvent" where
  "allDayEvent i s =
     \<lparr> id' = i, summary = Some s,
       start = Some \<lparr> dateTime = None, date = Some ''2024-12-10'' \<rparr>,
       end' = Some \<lparr> dateTime = None, date = Some ''2024-12-11'' \<rparr>,
       location = None \<rparr>"

definition untitledEvent :: "string \<Rightarrow> rawEvent" where
  "untitledEvent i =
     \<lparr> id' = i, summary = None,
       start = Some \<lparr> dateTime = Some ''2024-12-09T15:00:00Z'', date = None \<rparr>,
       end' = Some \<lparr> dateTime = Some ''2024-12-09T16:00:00Z'', date = None \<rparr>,
       location = None \<rparr>"

definition sampleEnv :: "rawEvent list \<Rightarrow> env" where
  "sampleEnv events =
     \<lparr> dbConnects = True, tokenLoads = True, consentSucceeds = True, tokenSaves = True,
       provider = Items (Some events), dm = Delivered \<rparr>"

definition noOptions :: options where
  "noOptions = \<lparr> classname = None, locationtype = None, eventholder = None,
     eventdate = None, dayofweek = None \<rparr>"

definition sevenEvents :: "rawEvent list" where
  "sevenEvents =
     [timedEvent ''e1'' ''CISC108-Smith-Virtual'',
      timedEvent ''e2'' ''CISC181-Jones-In Person'',
      timedEvent ''e3'' ''CISC210-Lee-Virtual'',
      timedEvent ''e4'' ''CISC220-Kim-In Person'',
      timedEvent ''e5'' ''CISC275-Diaz-Virtual'',
      timedEvent ''e6'' ''CISC361-Chen-In Person'',
      timedEvent ''e7'' ''CISC375-Roy-Virtual'']"

section \<open>Validation before the listing\<close>

lemma dateRegex_test_iff:
  "dateRegex_test s \<longleftrightarrow>
     (\<exists>m\<in>set monthNames. \<exists>d. s = m @ '' '' @ d \<and> (length d = 1 \<or> length d = 2) \<and> list_all isDigit d)"
proof
  assume "dateRegex_test s"
  then obtain m where m: "m \<in> set monthNames" and p: "prefix (m @ '' '') s"
    and d: "(length (drop (length m + 1) s) = 1 \<or> length (drop (length m + 1) s) = 2)"
           "list_all isDigit (drop (length m + 1) s)"
    by (auto simp: dateRegex_test_def list_ex_iff Let_def)
  from p obtain zs where s: "s = (m @ '' '') @ zs" by (auto simp: prefix_def)
  then have "drop (length m + 1) s = zs" by simp
  with d s m show "\<exists>m\<in>set monthNames. \<exists>d. s = m @ '' '' @ d \<and> (length d = 1 \<or> length d = 2) \<and> list_all isDigit d"
    by auto
next
  assume "\<exists>m\<in>set monthNames. \<exists>d. s = m @ '' '' @ d \<and> (length d = 1 \<or> length d = 2) \<and> list_all isDigit d"
  then obtain m d where m: "m \<in> set monthNames" and s: "s = m @ '' '' @ d"
    and d: "length d = 1 \<or> length d = 2" "list_all isDigit d" by blast
  have "prefix (m @ '' '') s" using s by (simp add: prefix_def)
  moreover have "drop (length m + 1) s = d" using s by simp
  ultimately show "dateRegex_test s"
    using m d unfolding dateRegex_test_def list_ex_iff Let_def by blast
qed

lemma run_rejected:
  "dbConnects w \<Longrightarrow> validate (readOptions opts) = Some m \<Longrightarrow>
   run rt w opts = ([DbConnect, Reply m True], Returned)"
  by (simp add: run_def)

lemma run_accepted_head:
  "dbConnects w \<Longrightarrow> validate (readOptions opts) = None \<Longrightarrow>
   \<exists>fx. fst (run rt w opts) = DbConnect # Reply msgAuthenticating False # LoadToken # fx"
  by (auto simp: run_def authorize_def split: prod.splits)

text \<open>
  C1, as the code has it. When the other options pass their checks and the database
  connection opens, an \<^verbatim>\<open>eventdate\<close> value is rejected with the format-error reply, before
  any authorisation or provider query, exactly when it is not empty and is not a
  lower-case month name, one space and one or two digits. The digits are not compared
  with the length of the month: a provider query is only reached by the empty value or
  by a value of that shape, whatever its day number.
\<close>

theorem C1_eventdate_format_check:
  assumes db: "dbConnects w"
    and cls: "className (readOptions opts) = [] \<or> classNameRegex_test (className (readOptions opts))"
    and loc: "locType (readOptions opts) \<in> set [[], ''IP'', ''V'']"
    and dt: "eventdate opts = Some s"
  shows "(run rt w opts = ([DbConnect, Reply msgInvalidDate True], Returned) \<longleftrightarrow>
            s \<noteq> [] \<and> \<not> (\<exists>m\<in>set monthNames. \<exists>d. s = m @ '' '' @ d \<and>
                          (length d = 1 \<or> length d = 2) \<and> list_all isDigit d)) \<and>
         (ProviderQuery \<in> set (fst (run rt w opts)) \<longrightarrow>
            s = [] \<or> (\<exists>m\<in>set monthNames. \<exists>d. s = m @ '' '' @ d \<and>
                          (length d = 1 \<or> length d = 2) \<and> list_all isDigit d))"
proof -
  let ?ok = "\<exists>m\<in>set monthNames. \<exists>d. s = m @ '' '' @ d \<and> (length d = 1 \<or> length d = 2) \<and> list_all isDigit d"
  have ed: "eventDate (readOptions opts) = s" using dt by (simp add: readOptions_def orEmpty_def)
  show ?thesis
  proof (cases "s \<noteq> [] \<and> \<not> ?ok")
    case True
    then have "validate (readOptions opts) = Some msgInvalidDate"
      using cls loc ed by (auto simp: validate_def dateRegex_test_iff)
    then have "run rt w opts = ([DbConnect, Reply msgInvalidDate True], Returned)"
      using db by (rule run_rejected[rotated])
    then show ?thesis using True by simp
  next
    case False
    then have "validate (readOptions opts) = None"
      using cls loc ed by (auto simp: validate_def dateRegex_test_iff)
    then obtain fx where "fst (run rt w opts) = DbConnect # Reply msgAuthenticating False # LoadToken # fx"
      using run_accepted_head[OF db] by blast
    then have "run rt w opts \<noteq> ([DbConnect, Reply msgInvalidDate True], Returned)"
      by auto
    then show ?thesis using False by blast
  qed
qed

theorem C1_eventdate_format_check_witness:
  "run sampleRuntime (sampleEnv []) (noOptions\<lparr>eventdate := Some ''dec 32''\<rparr>) =
     ([DbConnect, Reply msgInvalidDate True], Returned)"
proof -
  let ?opts = "noOptions\<lparr>eventdate := Some ''dec 32''\<rparr>"
  have db: "dbConnects (sampleEnv [])" by (simp add: sampleEnv_def)
  have cls: "className (readOptions ?opts) = [] \<or> classNameRegex_test (className (readOptions ?opts))"
    by (simp add: readOptions_def noOptions_def orEmpty_def)
  have loc: "locType (readOptions ?opts) \<in> set [[], ''IP'', ''V'']"
    by (simp add: readOptions_def noOptions_def orEmpty_def)
  have dt: "eventdate ?opts = Some ''dec 32''" by simp
  have bad: "''dec 32'' \<noteq> [] \<and> \<not> (\<exists>m\<in>set monthNames. \<exists>d. ''dec 32'' = m @ '' '' @ d \<and>
                          (length d = 1 \<or> length d = 2) \<and> list_all isDigit d)"
    by (simp add: monthNames_def)
  from C1_eventdate_format_check[OF db cls loc dt, of sampleRuntime] bad show ?thesis by blast
qed

text \<open>
  C1 as stated fails: \<^verbatim>\<open>december 32\<close> passes the validation, the provider is queried and
  no format-error reply is sent.
\<close>

theorem C1_december_32_counterexample:
  "validate (readOptions (noOptions\<lparr>eventdate := Some ''december 32''\<rparr>)) = None \<and>
   ProviderQuery \<in> set (fst (run sampleRuntime (sampleEnv sevenEvents)
                               (noOptions\<lparr>eventdate := Some ''december 32''\<rparr>))) \<and>
   Reply msgInvalidDate True \<notin> set (fst (run sampleRuntime (sampleEnv sevenEvents)
                               (noOptions\<lparr>eventdate := Some ''december 32''\<rparr>)))"
  by code_simp

lemma first_failure:
  "A \<or> B \<or> C \<Longrightarrow>
   \<exists>m\<in>set [x, y, z]. (if A then Some x else if B then Some y else if C then Some z else None) = Some m"
  by auto

text \<open>
  C6, as the code has it. When an option fails its format check, the invocation has
  opened the database connection (line 298 comes before the checks) and then only sends
  the rejection reply: no database write, no loading of a token, no consent flow and no
  provider query.
\<close>

theorem C6_malformed_option_stops_after_connect:
  assumes "(className (readOptions opts) \<noteq> [] \<and> \<not> classNameRegex_test (className (readOptions opts))) \<or>
           (locType (readOptions opts) \<noteq> [] \<and> locType (readOptions opts) \<notin> set [''IP'', ''V'']) \<or>
           (eventDate (readOptions opts) \<noteq> [] \<and> \<not> dateRegex_test (eventDate (readOptions opts)))"
  shows "\<exists>m\<in>set [msgInvalidClassName, msgInvalidLocationType, msgInvalidDate].
           run rt w opts =
             (if dbConnects w then ([DbConnect, Reply m True], Returned) else ([DbConnect], Thrown))"
proof -
  have "\<exists>m\<in>set [msgInvalidClassName, msgInvalidLocationType, msgInvalidDate].
          validate (readOptions opts) = Some m"
    unfolding validate_def using assms by (rule first_failure)
  then obtain m where m: "m \<in> set [msgInvalidClassName, msgInvalidLocationType, msgInvalidDate]"
    and v: "validate (readOptions opts) = Some m"
    by blast
  have "run rt w opts = (if dbConnects w then ([DbConnect, Reply m True], Returned) else ([DbConnect], Thrown))"
    using v by (simp add: run_def)
  with m show ?thesis by blast
qed

theorem C6_malformed_option_stops_after_connect_witness:
  "run sampleRuntime (sampleEnv sevenEvents) (noOptions\<lparr>locationtype := Some ''online''\<rparr>) =
     ([DbConnect, Reply msgInvalidLocationType True], Returned)"
proof -
  let ?opts = "noOptions\<lparr>locationtype := Some ''online''\<rparr>"
  have c: "className (readOptions ?opts) = []" "locType (readOptions ?opts) = ''ONLINE''"
    "eventDate (readOptions ?opts) = []"
    by (simp_all add: readOptions_def noOptions_def orEmpty_def toUpperCase_def toUpperChar_def
        lowerAlphabet_def upperAlphabet_def)
  then have bad: "(className (readOptions ?opts) \<noteq> [] \<and> \<not> classNameRegex_test (className (readOptions ?opts))) \<or>
           (locType (readOptions ?opts) \<noteq> [] \<and> locType (readOptions ?opts) \<notin> set [''IP'', ''V'']) \<or>
           (eventDate (readOptions ?opts) \<noteq> [] \<and> \<not> dateRegex_test (eventDate (readOptions ?opts)))"
    by simp
  have db: "dbConnects (sampleEnv sevenEvents)" by (simp add: sampleEnv_def)
  have ne: "msgInvalidClassName \<noteq> msgInvalidLocationType" "msgInvalidDate \<noteq> msgInvalidLocationType"
    by (simp_all add: msgInvalidClassName_def msgInvalidLocationType_def msgInvalidDate_def)
  have "validate (readOptions ?opts) = Some msgInvalidLocationType"
    using c by (simp add: validate_def)
  then have r: "run sampleRuntime (sampleEnv sevenEvents) ?opts = ([DbConnect, Reply msgInvalidLocationType True], Returned)"
    using db by (simp add: run_def)
  from C6_malformed_option_stops_after_connect[OF bad, of sampleRuntime "sampleEnv sevenEvents"] r
  show ?thesis by simp
qed

text \<open>
  C6 as stated fails: with a malformed \<^verbatim>\<open>classname\<close> the database connection has been
  opened before the rejection.
\<close>

theorem C6_database_connection_counterexample:
  "validate (readOptions (noOptions\<lparr>classname := Some ''math101''\<rparr>)) = Some msgInvalidClassName \<and>
   DbConnect \<in> set (fst (run sampleRuntime (sampleEnv sevenEvents)
                            (noOptions\<lparr>classname := Some ''math101''\<rparr>)))"
  by code_simp



section \<open>Pages\<close>

lemma pageCount_div: "pageCount xs = (int (length xs) + 2) div 3"
proof -
  have "real (length xs) / real EVENTS_PER_PAGE = of_int (int (length xs)) / of_int 3"
    by (simp add: EVENTS_PER_PAGE_def)
  then have "pageCount xs = - (- int (length xs) div 3)"
    unfolding pageCount_def by (simp only: ceiling_divide_eq_div)
  then show ?thesis by presburger
qed

lemma slice_nat: "slice xs (int a) (int a + int p) = take p (drop a xs)"
proof (cases "a \<le> length xs")
  case False
  then show ?thesis by (simp add: slice_def Let_def min_def)
next
  case a: True
  show ?thesis
  proof (cases "a + p \<le> length xs")
    case True
    with a show ?thesis by (simp add: slice_def Let_def min_def)
  next
    case False
    with a have "nat (int (length xs) - int a) = length xs - a" by simp
    with a False show ?thesis by (simp add: slice_def Let_def min_def)
  qed
qed

lemma pageOf_nat: "pageOf xs (int i) = take 3 (drop (3 * i) xs)"
proof -
  have "pageOf xs (int i) = slice xs (int (3 * i)) (int (3 * i) + int 3)"
    by (simp add: pageOf_def EVENTS_PER_PAGE_def algebra_simps)
  then show ?thesis by (simp only: slice_nat)
qed

lemma concat_pages_take:
  "concat (map (\<lambda>i. take 3 (drop (3 * i) xs)) [0..<m]) = take (3 * m) xs"
proof (induction m)
  case 0
  show ?case by simp
next
  case (Suc m)
  have "take (3 * m) xs @ take 3 (drop (3 * m) xs) = take (3 * m + 3) xs"
    by (simp add: take_add)
  with Suc show ?case by (simp add: add.commute)
qed

lemma pageCount_covers: "length xs \<le> 3 * nat (pageCount xs)"
proof -
  have "0 \<le> (int (length xs) + 2) div 3" "int (length xs) \<le> 3 * ((int (length xs) + 2) div 3)"
    by presburger+
  then show ?thesis unfolding pageCount_div by linarith
qed

lemma concat_pages:
  "concat (map (\<lambda>i. pageOf xs (int i)) [0..<nat (pageCount xs)]) = xs"
  using pageCount_covers[of xs] by (simp add: pageOf_nat concat_pages_take)


lemma parsedEventsFrom_length:
  "parsedEventsFrom rt i events = Inr ps \<Longrightarrow> length ps = length events"
proof (induction events arbitrary: i ps)
  case Nil
  then show ?case by simp
next
  case (Cons event events)
  then show ?case by (auto split: sum.splits)
qed

lemma showInt_small:
  "showInt 1 = ''1''" "showInt 2 = ''2''" "showInt 3 = ''3''" "showInt 7 = ''7''"
  by (simp_all add: showInt_def showNat.simps)

lemma pageCount_seven: "pageCount [e1, e2, e3, e4, e5, e6, e7] = 3"
  by (simp add: pageCount_div)

lemma pageOf_seven:
  "pageOf [e1, e2, e3, e4, e5, e6, e7] 0 = [e1, e2, e3]"
  "pageOf [e1, e2, e3, e4, e5, e6, e7] 2 = [e7]"
  using pageOf_nat[of "[e1, e2, e3, e4, e5, e6, e7]" 0]
    pageOf_nat[of "[e1, e2, e3, e4, e5, e6, e7]" 2] by simp_all

lemma eventField_names:
  "fst (eventField 0 (0, p)) = ''Event 1: '' @ name p"
  "fst (eventField 0 (1, p)) = ''Event 2: '' @ name p"
  "fst (eventField 0 (2, p)) = ''Event 3: '' @ name p"
  "fst (eventField 2 (0, p)) = ''Event 7: '' @ name p"
  by (simp_all add: eventField_def EVENTS_PER_PAGE_def showInt_small)

lemma generateEmbed_fields:
  "map_sum id embedFields (generateEmbed c parsed page) =
     (if list_all fieldAccepted (map (eventField page) (enumerate 0 (pageOf parsed page)))
      then Inr (map (eventField page) (enumerate 0 (pageOf parsed page)))
      else Inl ValidationError)"
  by (simp add: generateEmbed_def Let_def)

lemma updateMessage_components:
  "map_sum id components (updateMessage c parsed page) =
     (if list_all fieldAccepted (map (eventField page) (enumerate 0 (pageOf parsed page)))
      then Inr (pageButtons parsed page) else Inl ValidationError)"
  by (simp add: updateMessage_def generateEmbed_def Let_def)

text \<open>
  C8, as the code has it. Seven events give three pages, of which page 0 holds the
  events 1 to 3 and the last page, page 2, event 7 alone. A page is rendered exactly when
  the embed builder accepts each of its fields, a name of at most 256 and a value of at
  most 1024 characters; page 0 then has exactly the fields of the events 1 to 3, named
  with the numbers 1, 2 and 3, and page 2 exactly the field of event 7, named with the
  number 7. The row of page 2 has the button \<^verbatim>\<open>next\<close> disabled, the two others enabled,
  and is the row of the message edited in for page 2. For every sequence the page count
  is the ceiling of the length over 3, and the slices of the pages 0, 1, ... in order
  make up the sequence again.
\<close>

theorem C8_seven_events_pages_when_accepted:
  "pageCount [p1, p2, p3, p4, p5, p6, p7] = 3 \<and>
   pageOf [p1, p2, p3, p4, p5, p6, p7] 0 = [p1, p2, p3] \<and>
   pageOf [p1, p2, p3, p4, p5, p6, p7] 2 = [p7] \<and>
   map_sum id embedFields (generateEmbed c [p1, p2, p3, p4, p5, p6, p7] 0) =
     (if list_all fieldAccepted [eventField 0 (0, p1), eventField 0 (1, p2), eventField 0 (2, p3)]
      then Inr [eventField 0 (0, p1), eventField 0 (1, p2), eventField 0 (2, p3)]
      else Inl ValidationError) \<and>
   map fst [eventField 0 (0, p1), eventField 0 (1, p2), eventField 0 (2, p3)] =
     [''Event 1: '' @ name p1, ''Event 2: '' @ name p2, ''Event 3: '' @ name p3] \<and>
   map_sum id embedFields (generateEmbed c [p1, p2, p3, p4, p5, p6, p7] 2) =
     (if fieldAccepted (eventField 2 (0, p7)) then Inr [eventField 2 (0, p7)]
      else Inl ValidationError) \<and>
   fst (eventField 2 (0, p7)) = ''Event 7: '' @ name p7 \<and>
   pageButtons [p1, p2, p3, p4, p5, p6, p7] 2 =
     [\<lparr> customId = ''prev'', label = ''Previous'', disabled = False \<rparr>,
      \<lparr> customId = ''next'', label = ''Next'', disabled = True \<rparr>,
      \<lparr> customId = ''done'', label = ''Done'', disabled = False \<rparr>] \<and>
   map_sum id components (updateMessage c [p1, p2, p3, p4, p5, p6, p7] 2) =
     (if fieldAccepted (eventField 2 (0, p7))
      then Inr (pageButtons [p1, p2, p3, p4, p5, p6, p7] 2) else Inl ValidationError) \<and>
   pageCount xs = \<lceil>real (length xs) / 3\<rceil> \<and>
   concat (map (\<lambda>i. pageOf xs (int i)) [0..<nat (pageCount xs)]) = xs"
proof -
  have e0: "map (eventField 0) (enumerate 0 [p1, p2, p3]) =
      [eventField 0 (0, p1), eventField 0 (1, p2), eventField 0 (2, p3)]"
    by (simp add: numeral_2_eq_2)
  have f0: "map_sum id embedFields (generateEmbed c [p1, p2, p3, p4, p5, p6, p7] 0) =
     (if list_all fieldAccepted [eventField 0 (0, p1), eventField 0 (1, p2), eventField 0 (2, p3)]
      then Inr [eventField 0 (0, p1), eventField 0 (1, p2), eventField 0 (2, p3)]
      else Inl ValidationError)"
    unfolding generateEmbed_fields pageOf_seven e0 by (rule refl)
  have f2: "map_sum id embedFields (generateEmbed c [p1, p2, p3, p4, p5, p6, p7] 2) =
     (if fieldAccepted (eventField 2 (0, p7)) then Inr [eventField 2 (0, p7)]
      else Inl ValidationError)"
    unfolding generateEmbed_fields pageOf_seven by simp
  have n0: "map fst [eventField 0 (0, p1), eventField 0 (1, p2), eventField 0 (2, p3)] =
     [''Event 1: '' @ name p1, ''Event 2: '' @ name p2, ''Event 3: '' @ name p3]"
    by (simp only: list.map eventField_names)
  have n2: "fst (eventField 2 (0, p7)) = ''Event 7: '' @ name p7"
    by (rule eventField_names)
  have row: "pageButtons [p1, p2, p3, p4, p5, p6, p7] 2 =
     [\<lparr> customId = ''prev'', label = ''Previous'', disabled = False \<rparr>,
      \<lparr> customId = ''next'', label = ''Next'', disabled = True \<rparr>,
      \<lparr> customId = ''done'', label = ''Done'', disabled = False \<rparr>]"
    by (simp add: pageButtons_def pageCount_seven)
  have um: "map_sum id components (updateMessage c [p1, p2, p3, p4, p5, p6, p7] 2) =
     (if fieldAccepted (eventField 2 (0, p7))
      then Inr (pageButtons [p1, p2, p3, p4, p5, p6, p7] 2) else Inl ValidationError)"
    unfolding updateMessage_components pageOf_seven by simp
  have ce: "pageCount xs = \<lceil>real (length xs) / 3\<rceil>"
    by (simp add: pageCount_def EVENTS_PER_PAGE_def)
  show ?thesis
    by (intro conjI) (rule pageCount_seven pageOf_seven f0 n0 f2 n2 row um ce concat_pages)+
qed

theorem C8_seven_events_pages_when_accepted_witness:
  "pageCount (projr (parsedEvents sampleRuntime sevenEvents)) = 3 \<and>
   map_sum id (map fst) (map_sum id embedFields (generateEmbed (readOptions noOptions)
     (projr (parsedEvents sampleRuntime sevenEvents)) 0)) =
     Inr [''Event 1: CISC108'', ''Event 2: CISC181'', ''Event 3: CISC210''] \<and>
   map_sum id (map fst) (map_sum id embedFields (generateEmbed (readOptions noOptions)
     (projr (parsedEvents sampleRuntime sevenEvents)) 2)) = Inr [''Event 7: CISC375''] \<and>
   map_sum id components (updateMessage (readOptions noOptions)
     (projr (parsedEvents sampleRuntime sevenEvents)) 2) =
     Inr [\<lparr> customId = ''prev'', label = ''Previous'', disabled = False \<rparr>,
          \<lparr> customId = ''next'', label = ''Next'', disabled = True \<rparr>,
          \<lparr> customId = ''done'', label = ''Done'', disabled = False \<rparr>]"
proof -
  let ?p = "\<lambda>i s. projr (parseEvent sampleRuntime i (timedEvent [] s))"
  have ps: "projr (parsedEvents sampleRuntime sevenEvents) =
      [?p 0 ''CISC108-Smith-Virtual'', ?p 1 ''CISC181-Jones-In Person'',
       ?p 2 ''CISC210-Lee-Virtual'', ?p 3 ''CISC220-Kim-In Person'',
       ?p 4 ''CISC275-Diaz-Virtual'', ?p 5 ''CISC361-Chen-In Person'',
       ?p 6 ''CISC375-Roy-Virtual'']"
    by code_simp
  have nm: "name (?p 0 ''CISC108-Smith-Virtual'') = ''CISC108''"
    "name (?p 1 ''CISC181-Jones-In Person'') = ''CISC181''"
    "name (?p 2 ''CISC210-Lee-Virtual'') = ''CISC210''"
    "name (?p 6 ''CISC375-Roy-Virtual'') = ''CISC375''"
    by code_simp+
  have ok: "list_all fieldAccepted [eventField 0 (0, ?p 0 ''CISC108-Smith-Virtual''),
      eventField 0 (1, ?p 1 ''CISC181-Jones-In Person''),
      eventField 0 (2, ?p 2 ''CISC210-Lee-Virtual'')]"
    "fieldAccepted (eventField 2 (0, ?p 6 ''CISC375-Roy-Virtual''))"
    by code_simp+
  note T = C8_seven_events_pages_when_accepted[of "?p 0 ''CISC108-Smith-Virtual''"
      "?p 1 ''CISC181-Jones-In Person''" "?p 2 ''CISC210-Lee-Virtual''"
      "?p 3 ''CISC220-Kim-In Person''" "?p 4 ''CISC275-Diaz-Virtual''"
      "?p 5 ''CISC361-Chen-In Person''" "?p 6 ''CISC375-Roy-Virtual''"
      "readOptions noOptions" "[]"]
  note T3 = T[THEN conjunct2, THEN conjunct2, THEN conjunct2]
  note T5 = T3[THEN conjunct2, THEN conjunct2]
  note T7 = T5[THEN conjunct2, THEN conjunct2]
  have a: "pageCount (projr (parsedEvents sampleRuntime sevenEvents)) = 3"
    unfolding ps by (rule T[THEN conjunct1])
  have m0: "map_sum id (map fst) (map_sum id embedFields (generateEmbed (readOptions noOptions)
     (projr (parsedEvents sampleRuntime sevenEvents)) 0)) =
     Inr [''Event 1: CISC108'', ''Event 2: CISC181'', ''Event 3: CISC210'']"
  proof -
    have "map fst [eventField 0 (0, ?p 0 ''CISC108-Smith-Virtual''),
        eventField 0 (1, ?p 1 ''CISC181-Jones-In Person''),
        eventField 0 (2, ?p 2 ''CISC210-Lee-Virtual'')] =
        [''Event 1: CISC108'', ''Event 2: CISC181'', ''Event 3: CISC210'']"
      using T3[THEN conjunct2, THEN conjunct1] by (simp only: nm append.simps)
    then show ?thesis
      unfolding ps T3[THEN conjunct1] by (simp only: ok if_True map_sum.simps)
  qed
  have m2: "map_sum id (map fst) (map_sum id embedFields (generateEmbed (readOptions noOptions)
     (projr (parsedEvents sampleRuntime sevenEvents)) 2)) = Inr [''Event 7: CISC375'']"
  proof -
    have "fst (eventField 2 (0, ?p 6 ''CISC375-Roy-Virtual'')) = ''Event 7: CISC375''"
      using T5[THEN conjunct2, THEN conjunct1] by (simp only: nm append.simps)
    then show ?thesis
      unfolding ps T5[THEN conjunct1] by (simp only: ok if_True map_sum.simps list.map)
  qed
  have um: "map_sum id components (updateMessage (readOptions noOptions)
     (projr (parsedEvents sampleRuntime sevenEvents)) 2) =
     Inr [\<lparr> customId = ''prev'', label = ''Previous'', disabled = False \<rparr>,
          \<lparr> customId = ''next'', label = ''Next'', disabled = True \<rparr>,
          \<lparr> customId = ''done'', label = ''Done'', disabled = False \<rparr>]"
    unfolding ps T7[THEN conjunct2, THEN conjunct1] using ok(2) T7[THEN conjunct1]
    by simp
  show ?thesis by (intro conjI) (rule a m0 m2 um)+
qed

text \<open>
  C8 as stated fails. Of seven events after filtering the first has a course of 300
  characters: the name of its field is longer than the builder accepts, page 0 is not
  rendered, and the invocation ends with the failure message after the seven events have
  been stored and the private channel opened.
\<close>

theorem C8_long_course_counterexample:
  "length (projr (parsedEvents sampleRuntime
     (timedEvent ''e1'' (replicate 300 (CHR ''A'') @ ''-Smith-Virtual'') # tl sevenEvents))) = 7 \<and>
   generateEmbed (readOptions noOptions) (projr (parsedEvents sampleRuntime
     (timedEvent ''e1'' (replicate 300 (CHR ''A'') @ ''-Smith-Virtual'') # tl sevenEvents))) 0 =
     Inl ValidationError \<and>
   length (fst (run sampleRuntime (sampleEnv
     (timedEvent ''e1'' (replicate 300 (CHR ''A'') @ ''-Smith-Virtual'') # tl sevenEvents))
     noOptions)) = 13 \<and>
   drop 11 (fst (run sampleRuntime (sampleEnv
     (timedEvent ''e1'' (replicate 300 (CHR ''A'') @ ''-Smith-Virtual'') # tl sevenEvents))
     noOptions)) = [CreateDM, FollowUp msgFailed]"
  by code_simp

lemma initialButtons_eq:
  assumes "length filtered = length parsed" "parsed \<noteq> []"
  shows "initialButtons filtered = pageButtons parsed 0"
proof -
  have "0 < length parsed" using assms by simp
  then have "(length parsed \<le> 3) = (0 = (int (length parsed) + 2) div 3 - 1)"
    by presburger
  then show ?thesis
    using assms by (simp add: initialButtons_def pageButtons_def pageCount_div EVENTS_PER_PAGE_def)
qed

text \<open>
  C2, as the code has it. The handler has no guard of its own: the page index stays in
  range because the buttons are disabled at the boundaries. For a session over at least
  one event, the first message shows the buttons of page 0, the first page index is in
  range, and every button event that is enabled in the row rendered for the current page
  leaves \<open>0 \<le> currentPage \<le> pageCount - 1\<close> in place.
\<close>

theorem C2_enabled_buttons_keep_page_in_range:
  assumes pe: "parsedEvents rt filtered = Inr parsed"
    and ne: "filtered \<noteq> []"
    and lo: "0 \<le> currentPage s"
    and hi: "currentPage s \<le> pageCount parsed - 1"
    and en: "enabled (pageButtons parsed (currentPage s)) cid"
  shows "initialButtons filtered = pageButtons parsed (currentPage initialSession) \<and>
         0 \<le> currentPage initialSession \<and> currentPage initialSession \<le> pageCount parsed - 1 \<and>
         0 \<le> currentPage (fst (collect c parsed cid s)) \<and>
         currentPage (fst (collect c parsed cid s)) \<le> pageCount parsed - 1"
proof -
  have len: "length filtered = length parsed"
    using pe parsedEventsFrom_length[of rt 0 filtered parsed] by (simp add: parsedEvents_def)
  with ne have pne: "parsed \<noteq> []" by auto
  then have "0 < length parsed" by simp
  then have pc: "1 \<le> pageCount parsed" unfolding pageCount_div by presburger
  have ib: "initialButtons filtered = pageButtons parsed (currentPage initialSession)"
    using initialButtons_eq[OF len pne] by (simp add: initialSession_def)
  have prev: "cid = ''prev'' \<Longrightarrow> currentPage s \<noteq> 0"
    using en by (auto simp: enabled_def pageButtons_def)
  have nxt: "cid = ''next'' \<Longrightarrow> currentPage s \<noteq> pageCount parsed - 1"
    using en by (auto simp: enabled_def pageButtons_def)
  have "0 \<le> currentPage (fst (collect c parsed cid s)) \<and>
        currentPage (fst (collect c parsed cid s)) \<le> pageCount parsed - 1"
    using lo hi prev nxt by (auto simp: collect_def Let_def)
  with ib pc show ?thesis by (simp add: initialSession_def)
qed

theorem C2_enabled_buttons_keep_page_in_range_witness:
  "enabled (pageButtons (projr (parsedEvents sampleRuntime sevenEvents)) 1) ''next'' \<and>
   currentPage (fst (collect (readOptions noOptions) (projr (parsedEvents sampleRuntime sevenEvents))
      ''next'' \<lparr>currentPage = 1, ended = False\<rparr>)) = 2 \<and>
   2 \<le> pageCount (projr (parsedEvents sampleRuntime sevenEvents)) - 1"
proof -
  let ?parsed = "projr (parsedEvents sampleRuntime sevenEvents)"
  let ?s = "\<lparr>currentPage = 1, ended = False\<rparr>"
  have pe: "parsedEvents sampleRuntime sevenEvents = Inr ?parsed" by code_simp
  have ne: "sevenEvents \<noteq> []" by (simp add: sevenEvents_def)
  have "length ?parsed = 7" by code_simp
  then have pc: "pageCount ?parsed = 3" by (simp add: pageCount_div)
  have lo: "0 \<le> currentPage ?s" by simp
  have hi: "currentPage ?s \<le> pageCount ?parsed - 1" by (simp add: pc)
  have en: "enabled (pageButtons ?parsed (currentPage ?s)) ''next''"
    by (simp add: enabled_def pageButtons_def pc)
  have cp: "currentPage (fst (collect (readOptions noOptions) ?parsed ''next'' ?s)) = 2"
    by (simp add: collect_def Let_def)
  from C2_enabled_buttons_keep_page_in_range[OF pe ne lo hi en, of "readOptions noOptions"] en cp
  show ?thesis by simp
qed

text \<open>
  C2 as stated fails: delivered to the handler on page 0, a \<^verbatim>\<open>prev\<close> event moves the index
  to \<open>-1\<close>, and on the last page of seven events a \<^verbatim>\<open>next\<close> event moves it to \<open>3\<close>.
\<close>

theorem C2_unguarded_handler_counterexample:
  "pageCount (projr (parsedEvents sampleRuntime sevenEvents)) = 3 \<and>
   currentPage (fst (collect (readOptions noOptions) (projr (parsedEvents sampleRuntime sevenEvents))
      ''prev'' \<lparr>currentPage = 0, ended = False\<rparr>)) = - 1 \<and>
   currentPage (fst (collect (readOptions noOptions) (projr (parsedEvents sampleRuntime sevenEvents))
      ''next'' \<lparr>currentPage = 2, ended = False\<rparr>)) = 3"
proof -
  have "length (projr (parsedEvents sampleRuntime sevenEvents)) = 7"
    by code_simp
  then have "pageCount (projr (parsedEvents sampleRuntime sevenEvents)) = 3"
    by (simp add: pageCount_div)
  then show ?thesis by (simp add: collect_def Let_def)
qed

section \<open>Normalisation\<close>

lemma toLowerChar_cases:
  "toLowerChar c = c \<or> (c \<in> set upperAlphabet \<and> toLowerChar c \<in> set lowerAlphabet)"
proof (cases "map_of (zip upperAlphabet lowerAlphabet) c")
  case None
  then show ?thesis by (simp add: toLowerChar_def)
next
  case (Some d)
  then have "(c, d) \<in> set (zip upperAlphabet lowerAlphabet)" by (rule map_of_SomeD)
  then have "c \<in> set upperAlphabet" "d \<in> set lowerAlphabet"
    by (auto dest: set_zip_leftD set_zip_rightD)
  with Some show ?thesis by (simp add: toLowerChar_def)
qed

lemma isWhiteSpace_toLowerChar: "isWhiteSpace (toLowerChar c) = isWhiteSpace c"
proof -
  have "\<not> isWhiteSpace x" if "x \<in> set upperAlphabet \<or> x \<in> set lowerAlphabet" for x
    using that by (auto simp: isWhiteSpace_def upperAlphabet_def lowerAlphabet_def)
  then show ?thesis using toLowerChar_cases[of c] by auto
qed

lemma map_dropWhile_commute:
  "(\<And>c. P (f c) = P c) \<Longrightarrow> map f (dropWhile P xs) = dropWhile P (map f xs)"
  by (induction xs) simp_all

lemma toLowerCase_trim: "toLowerCase (trim x) = trim (toLowerCase x)"
proof -
  have c: "map toLowerChar (dropWhile isWhiteSpace ys) = dropWhile isWhiteSpace (map toLowerChar ys)" for ys
    by (rule map_dropWhile_commute) (rule isWhiteSpace_toLowerChar)
  show ?thesis by (simp add: toLowerCase_def trim_def rev_map c[symmetric])
qed

lemma sublist_dropWhile:
  assumes "w \<noteq> []" "\<not> P (hd w)"
  shows "sublist w (dropWhile P y) = sublist w y"
proof
  assume "sublist w (dropWhile P y)"
  moreover have "sublist (dropWhile P y) y"
    by (rule suffix_imp_sublist) (rule suffix_dropWhile)
  ultimately show "sublist w y" by (rule sublist_order.order.trans)
next
  assume "sublist w y"
  then obtain ps ss where y: "y = ps @ w @ ss" by (auto simp: sublist_def)
  have "sublist w (dropWhile P (ps @ w @ ss))"
  proof (induction ps)
    case Nil
    from assms have "dropWhile P (w @ ss) = w @ ss" by (cases w) simp_all
    then show ?case by simp
  next
    case (Cons p ps)
    show ?case
    proof (cases "P p")
      case True
      with Cons show ?thesis by simp
    next
      case False
      have "sublist w ((p # ps) @ w @ ss)" by (rule sublist_appendI)
      with False show ?thesis by simp
    qed
  qed
  with y show "sublist w (dropWhile P y)" by simp
qed

lemma sublist_trim:
  assumes "w \<noteq> []" "\<not> isWhiteSpace (hd w)" "\<not> isWhiteSpace (last w)"
  shows "sublist w (trim y) = sublist w y"
proof -
  have r: "rev w \<noteq> []" "\<not> isWhiteSpace (hd (rev w))"
    using assms by (simp_all add: hd_rev)
  have "sublist w (trim y) = sublist (rev w) (dropWhile isWhiteSpace (rev (dropWhile isWhiteSpace y)))"
    by (simp add: trim_def sublist_rev_right)
  also have "\<dots> = sublist (rev w) (rev (dropWhile isWhiteSpace y))"
    by (rule sublist_dropWhile[of "rev w" isWhiteSpace, OF r])
  also have "\<dots> = sublist w (dropWhile isWhiteSpace y)"
    by (simp add: sublist_rev_right)
  also have "\<dots> = sublist w y"
    by (rule sublist_dropWhile[of w isWhiteSpace, OF assms(1,2)])
  finally show ?thesis .
qed

lemma includes_virtual_trim:
  "str_includes (toLowerCase (trim x)) ''virtual'' = str_includes (toLowerCase x) ''virtual''"
  unfolding str_includes_def toLowerCase_trim
  by (rule sublist_trim) (simp_all add: isWhiteSpace_def)

lemma split_nonempty: "split d s \<noteq> []"
  by (induction s) (auto split: list.splits)

lemma split_hd_prefix: "prefix (hd (split d s)) s"
proof (induction s)
  case Nil
  show ?case by simp
next
  case (Cons c cs)
  then show ?case using split_nonempty[of d cs] by (auto split: list.splits)
qed

lemma sublist_trim_self: "sublist (trim x) x"
proof -
  have "suffix (dropWhile isWhiteSpace (rev (dropWhile isWhiteSpace x))) (rev (dropWhile isWhiteSpace x))"
    by (rule suffix_dropWhile)
  then have "prefix (trim x) (dropWhile isWhiteSpace x)"
    by (simp add: trim_def suffix_to_prefix)
  then have "sublist (trim x) (dropWhile isWhiteSpace x)" by (rule prefix_imp_sublist)
  moreover have "sublist (dropWhile isWhiteSpace x) x"
    by (rule suffix_imp_sublist) (rule suffix_dropWhile)
  ultimately show ?thesis by (rule sublist_order.order.trans)
qed

text \<open>
  For a raw event that has a summary, whatever the number of its segments, the
  normalisation returns an event. A summary always has a first segment, possibly empty;
  the course is that segment, trimmed; the instructor is the second segment, trimmed,
  and the empty string when there is none; the location type is \<^verbatim>\<open>V\<close> iff the third
  segment, the empty string when there is none, contains \<^verbatim>\<open>virtual\<close> in any case, and
  \<^verbatim>\<open>IP\<close> otherwise.
\<close>

lemma eventData_of_summary:
  assumes "summary event = Some s"
  shows "\<exists>d. eventData rt event = Inr d \<and>
           1 \<le> length (split (CHR ''-'') s) \<and>
           courseID d = trim (split (CHR ''-'') s ! 0) \<and>
           instructor d = (if 1 < length (split (CHR ''-'') s) then trim (split (CHR ''-'') s ! 1) else []) \<and>
           locationType d =
             (if str_includes (toLowerCase
                   (if 2 < length (split (CHR ''-'') s) then split (CHR ''-'') s ! 2 else [])) ''virtual''
              then ''V'' else ''IP'')"
proof -
  let ?parts = "split (CHR ''-'') s"
  have len: "1 \<le> length ?parts" using split_nonempty[of "CHR ''-''" s] by (cases ?parts) simp_all
  have none: "\<not> str_includes (toLowerCase []) ''virtual''"
    by (simp add: str_includes_def toLowerCase_def)
  show ?thesis
    using assms len none
    by (simp add: eventData_def Let_def partTrim_def includes_virtual_trim split_nonempty)
qed

lemma eventData_examples:
  "eventData sampleRuntime (timedEvent ''e1'' ''CISC108 - Dr. Smith - VIRTUAL lab'') =
     Inr \<lparr> eventId = ''e1'', courseID = ''CISC108'', instructor = ''Dr. Smith'',
           dateE = ''December 9 at 03:00 PM UTC'', startE = ''2024-12-09T15:00:00Z'',
           endE = ''2024-12-09T16:00:00Z'', locationE = [], locationType = ''V'' \<rparr>"
  "eventData sampleRuntime (timedEvent ''e2'' []) =
     Inr \<lparr> eventId = ''e2'', courseID = [], instructor = [],
           dateE = ''December 9 at 03:00 PM UTC'', startE = ''2024-12-09T15:00:00Z'',
           endE = ''2024-12-09T16:00:00Z'', locationE = [], locationType = ''IP'' \<rparr>"
  by code_simp+

text \<open>
  C7 at an input the provider really returns: an event without a title, which has no
  summary and so none of the segments. Its normalisation throws, where the claim has the
  missing segments become empty strings. In a batch of eight the seven events before it
  are stored, the invocation ends with the failure message, and no private channel is
  opened although seven events pass the empty filter.
\<close>

theorem C7_untitled_event_throws:
  "summary (untitledEvent ''e8'') = None \<and>
   eventData sampleRuntime (untitledEvent ''e8'') = Inl TypeError \<and>
   length (fst (run sampleRuntime (sampleEnv (sevenEvents @ [untitledEvent ''e8''])) noOptions)) = 12 \<and>
   drop 10 (fst (run sampleRuntime (sampleEnv (sevenEvents @ [untitledEvent ''e8''])) noOptions)) =
     [DbUpsert (projr (eventData sampleRuntime (timedEvent ''e7'' ''CISC375-Roy-Virtual''))),
      FollowUp msgFailed] \<and>
   CreateDM \<notin> set (fst (run sampleRuntime (sampleEnv (sevenEvents @ [untitledEvent ''e8''])) noOptions))"
  by code_simp

section \<open>What the filter compares\<close>

lemma filteredEvents_filter:
  "(\<And>event. filterCallback rt c event = Inr (P event)) \<Longrightarrow>
   filteredEvents rt c events = Inr (filter P events)"
  by (induction events) simp_all

lemma summaryIncludes_iff:
  "t \<noteq> [] \<Longrightarrow>
   summaryIncludes event t \<longleftrightarrow> (\<exists>s. summary event = Some s \<and> str_includes (toLowerCase s) t)"
  by (cases "summary event") (auto simp: summaryIncludes_def str_includes_def toLowerCase_def)

text \<open>
  C3, as the code has it. With the criterion \<^verbatim>\<open>V\<close> an event passes the location
  predicate iff its whole summary, in lower case, contains \<^verbatim>\<open>virtual\<close>; with \<^verbatim>\<open>IP\<close>
  iff its whole summary contains \<^verbatim>\<open>in person\<close>. When no other criterion is set, the
  filter returns exactly the events that pass, in their order.
\<close>

theorem C3_location_filter_reads_whole_summary:
  assumes "locType c = ''V'' \<or> locType c = ''IP''"
  shows "(matchLocationType c event \<longleftrightarrow>
            (\<exists>s. summary event = Some s \<and>
                 str_includes (toLowerCase s) (if locType c = ''V'' then ''virtual'' else ''in person''))) \<and>
         (className c = [] \<and> holder c = [] \<and> eventDate c = [] \<and> dayOfWeek c = [] \<longrightarrow>
            filteredEvents rt c events = Inr (filter (matchLocationType c) events))"
proof -
  have a: "matchLocationType c event \<longleftrightarrow>
            (\<exists>s. summary event = Some s \<and>
                 str_includes (toLowerCase s) (if locType c = ''V'' then ''virtual'' else ''in person''))"
    using assms by (auto simp: matchLocationType_def summaryIncludes_iff)
  have b: "filteredEvents rt c events = Inr (filter (matchLocationType c) events)"
    if "className c = [] \<and> holder c = [] \<and> eventDate c = [] \<and> dayOfWeek c = []"
    by (rule filteredEvents_filter)
       (simp add: that filterCallback_def matchEventDate_def matchClassName_def
          matchEventHolder_def matchDayOfWeek_def)
  from a b show ?thesis by blast
qed

theorem C3_location_filter_reads_whole_summary_witness:
  "filteredEvents sampleRuntime (readOptions (noOptions\<lparr>locationtype := Some ''v''\<rparr>)) sevenEvents =
     Inr [timedEvent ''e1'' ''CISC108-Smith-Virtual'', timedEvent ''e3'' ''CISC210-Lee-Virtual'',
          timedEvent ''e5'' ''CISC275-Diaz-Virtual'', timedEvent ''e7'' ''CISC375-Roy-Virtual'']"
proof -
  let ?c = "readOptions (noOptions\<lparr>locationtype := Some ''v''\<rparr>)"
  have c: "locType ?c = ''V''" "className ?c = []" "holder ?c = []" "eventDate ?c = []" "dayOfWeek ?c = []"
    by code_simp+
  then have h: "locType ?c = ''V'' \<or> locType ?c = ''IP''" by simp
  have f: "filter (matchLocationType ?c) sevenEvents =
     [timedEvent ''e1'' ''CISC108-Smith-Virtual'', timedEvent ''e3'' ''CISC210-Lee-Virtual'',
      timedEvent ''e5'' ''CISC275-Diaz-Virtual'', timedEvent ''e7'' ''CISC375-Roy-Virtual'']"
    by code_simp
  from C3_location_filter_reads_whole_summary[OF h, of _ sampleRuntime sevenEvents] c f
  show ?thesis by simp
qed

text \<open>
  C3 as stated fails. An event whose third segment is \<^verbatim>\<open>Room 101\<close> has the derived type
  \<^verbatim>\<open>IP\<close>; the filter for \<^verbatim>\<open>V\<close> keeps it when \<^verbatim>\<open>virtual\<close> occurs in its first segment,
  and the filter for \<^verbatim>\<open>IP\<close> drops it because its summary does not say \<^verbatim>\<open>in person\<close>.
\<close>

theorem C3_derived_location_type_counterexample:
  "locationType (projr (eventData sampleRuntime (timedEvent ''e1'' ''Virtual Reality Club-Smith-Room 101''))) = ''IP'' \<and>
   filteredEvents sampleRuntime (readOptions (noOptions\<lparr>locationtype := Some ''V''\<rparr>))
     [timedEvent ''e1'' ''Virtual Reality Club-Smith-Room 101''] =
     Inr [timedEvent ''e1'' ''Virtual Reality Club-Smith-Room 101''] \<and>
   locationType (projr (eventData sampleRuntime (timedEvent ''e2'' ''CISC108-Smith-Room 101''))) = ''IP'' \<and>
   filteredEvents sampleRuntime (readOptions (noOptions\<lparr>locationtype := Some ''IP''\<rparr>))
     [timedEvent ''e2'' ''CISC108-Smith-Room 101''] = Inr []"
  by code_simp

lemma courseID_sublist:
  assumes "eventData rt event = Inr d"
  shows "\<exists>s. summary event = Some s \<and> sublist (toLowerCase (courseID d)) (toLowerCase s)"
proof -
  from assms obtain s where s: "summary event = Some s"
    by (cases "summary event") (auto simp: eventData_def)
  let ?parts = "split (CHR ''-'') s"
  have ne: "?parts \<noteq> []" by (rule split_nonempty)
  then have "courseID d = trim (hd ?parts)"
    using assms s by (auto simp: eventData_def Let_def partTrim_def hd_conv_nth)
  moreover have "sublist (trim (hd ?parts)) (hd ?parts)" by (rule sublist_trim_self)
  moreover have "sublist (hd ?parts) s" by (rule prefix_imp_sublist) (rule split_hd_prefix)
  ultimately have "sublist (courseID d) s" by (auto intro: sublist_order.order.trans)
  then have "sublist (toLowerCase (courseID d)) (toLowerCase s)"
    unfolding toLowerCase_def by (rule map_mono_sublist)
  with s show ?thesis by blast
qed

text \<open>
  C4, as the code has it. With a class name set, an event passes the class predicate
  iff its whole summary contains the class name, both in lower case. An event whose
  normalised course equals the class name up to case therefore passes; and when no other
  criterion is set, the filter returns exactly the events that pass.
\<close>

theorem C4_classname_is_substring_match:
  assumes "className c \<noteq> []"
  shows "(matchClassName c event \<longleftrightarrow>
            (\<exists>s. summary event = Some s \<and> str_includes (toLowerCase s) (toLowerCase (className c)))) \<and>
         (\<forall>d. eventData rt event = Inr d \<and> toLowerCase (courseID d) = toLowerCase (className c) \<longrightarrow>
            matchClassName c event) \<and>
         (locType c = [] \<and> holder c = [] \<and> eventDate c = [] \<and> dayOfWeek c = [] \<longrightarrow>
            filteredEvents rt c events = Inr (filter (matchClassName c) events))"
proof -
  have ne: "toLowerCase (className c) \<noteq> []" using assms by (simp add: toLowerCase_def)
  have a: "matchClassName c event \<longleftrightarrow>
            (\<exists>s. summary event = Some s \<and> str_includes (toLowerCase s) (toLowerCase (className c)))"
    using assms by (simp add: matchClassName_def summaryIncludes_iff[OF ne])
  have b: "matchClassName c event"
    if "eventData rt event = Inr d \<and> toLowerCase (courseID d) = toLowerCase (className c)" for d
    using courseID_sublist[of rt event d] that unfolding a str_includes_def by auto
  have f: "filteredEvents rt c events = Inr (filter (matchClassName c) events)"
    if "locType c = [] \<and> holder c = [] \<and> eventDate c = [] \<and> dayOfWeek c = []"
    by (rule filteredEvents_filter)
       (simp add: that filterCallback_def matchEventDate_def matchLocationType_def
          matchEventHolder_def matchDayOfWeek_def)
  from a b f show ?thesis by blast
qed

theorem C4_classname_is_substring_match_witness:
  "filteredEvents sampleRuntime (readOptions (noOptions\<lparr>classname := Some ''cisc210''\<rparr>)) sevenEvents =
     Inr [timedEvent ''e3'' ''CISC210-Lee-Virtual'']"
proof -
  let ?c = "readOptions (noOptions\<lparr>classname := Some ''cisc210''\<rparr>)"
  have c: "className ?c = ''cisc210''" "locType ?c = []" "holder ?c = []" "eventDate ?c = []" "dayOfWeek ?c = []"
    by code_simp+
  then have h: "className ?c \<noteq> []" by simp
  have f: "filter (matchClassName ?c) sevenEvents = [timedEvent ''e3'' ''CISC210-Lee-Virtual'']"
    by code_simp
  from C4_classname_is_substring_match[OF h, of _ sampleRuntime sevenEvents] c f
  show ?thesis by simp
qed

text \<open>
  C4 as stated fails: for the class name \<^verbatim>\<open>cisc108\<close> the filter keeps an event of the
  course \<^verbatim>\<open>CISC1081\<close> and an event of the course \<^verbatim>\<open>MATH241\<close> whose third segment
  mentions \<^verbatim>\<open>CISC108\<close>.
\<close>

theorem C4_longer_code_counterexample:
  "courseID (projr (eventData sampleRuntime (timedEvent ''e1'' ''CISC1081-Smith-Virtual''))) = ''CISC1081'' \<and>
   matchClassName (readOptions (noOptions\<lparr>classname := Some ''cisc108''\<rparr>))
     (timedEvent ''e1'' ''CISC1081-Smith-Virtual'') \<and>
   courseID (projr (eventData sampleRuntime (timedEvent ''e2'' ''MATH241-Smith-Review for CISC108''))) = ''MATH241'' \<and>
   filteredEvents sampleRuntime (readOptions (noOptions\<lparr>classname := Some ''cisc108''\<rparr>))
     [timedEvent ''e1'' ''CISC1081-Smith-Virtual'', timedEvent ''e2'' ''MATH241-Smith-Review for CISC108''] =
     Inr [timedEvent ''e1'' ''CISC1081-Smith-Virtual'', timedEvent ''e2'' ''MATH241-Smith-Review for CISC108'']"
  by code_simp


section \<open>The filter on dates and weekdays, and the empty outcomes\<close>

text \<open>
  C5 at an input the provider really returns: an all-day event, whose start has a date
  but no date-time value, and the option \<^verbatim>\<open>eventdate\<close> set. The callback of the filter
  throws on that event, the filter returns no sequence, and the invocation ends with the
  failure message after the event has been stored.
\<close>

theorem C5_date_only_start_throws:
  "filterCallback sampleRuntime (readOptions (noOptions\<lparr>eventdate := Some ''december 10''\<rparr>))
     (allDayEvent ''e1'' ''CISC108-Smith-Virtual'') = Inl TypeError \<and>
   filteredEvents sampleRuntime (readOptions (noOptions\<lparr>eventdate := Some ''december 10''\<rparr>))
     [allDayEvent ''e1'' ''CISC108-Smith-Virtual''] = Inl TypeError \<and>
   run sampleRuntime (sampleEnv [allDayEvent ''e1'' ''CISC108-Smith-Virtual''])
     (noOptions\<lparr>eventdate := Some ''december 10''\<rparr>) =
     ([DbConnect, Reply msgAuthenticating False, LoadToken, ProviderQuery,
       DbUpsert (projr (eventData sampleRuntime (allDayEvent ''e1'' ''CISC108-Smith-Virtual''))),
       FollowUp msgFailed], Returned)"
  by code_simp

lemma storeEffects_all:
  "\<forall>e\<in>set events. summary e \<noteq> None \<Longrightarrow>
   storeEffects rt events = (map (\<lambda>e. DbUpsert (projr (eventData rt e))) events, None)"
proof (induction events)
  case Nil
  show ?case by simp
next
  case (Cons e events)
  then obtain s where "summary e = Some s" by auto
  then obtain d where "eventData rt e = Inr d" by (simp add: eventData_def Let_def)
  with Cons show ?case by simp
qed

lemma listEvents_no_match:
  assumes "provider w = Items (Some events)" "events \<noteq> []"
    "\<forall>e\<in>set events. summary e \<noteq> None" "filteredEvents rt c events = Inr []"
  shows "listEvents rt w c =
     ProviderQuery # map (\<lambda>e. DbUpsert (projr (eventData rt e))) events @ [FollowUp msgNoMatch]"
  using assms by (simp add: listEvents_def storeEffects_all)

lemma run_listing:
  assumes "dbConnects w" "validate (readOptions opts) = None" "snd (authorize w)"
  shows "run rt w opts =
     ([DbConnect, Reply msgAuthenticating False] @ fst (authorize w) @ listEvents rt w (readOptions opts),
      Returned)"
proof (cases "authorize w")
  case (Pair fx b)
  with assms show ?thesis by (simp add: run_def)
qed

text \<open>
  C9 at two inputs the provider really returns, with options that no fetched event
  satisfies. With \<^verbatim>\<open>classname\<close> \<^verbatim>\<open>cisc999\<close> and an event without a title after the seven
  events, the filter on the batch gives the empty sequence, but the normalisation of the
  untitled event has thrown before the filter runs. With \<^verbatim>\<open>eventdate\<close> \<^verbatim>\<open>december 25\<close> and
  an all-day event on 10 December, the callback of the filter throws. In both invocations
  events were fetched and none matches, and the user is told that the retrieval failed,
  not that no events match the filters.
\<close>

theorem C9_over_filtered_fetch_reports_failure:
  "filteredEvents sampleRuntime (readOptions (noOptions\<lparr>classname := Some ''cisc999''\<rparr>))
     (sevenEvents @ [untitledEvent ''e8'']) = Inr [] \<and>
   last (fst (run sampleRuntime (sampleEnv (sevenEvents @ [untitledEvent ''e8'']))
     (noOptions\<lparr>classname := Some ''cisc999''\<rparr>))) = FollowUp msgFailed \<and>
   FollowUp msgNoMatch \<notin> set (fst (run sampleRuntime (sampleEnv (sevenEvents @ [untitledEvent ''e8'']))
     (noOptions\<lparr>classname := Some ''cisc999''\<rparr>))) \<and>
   validate (readOptions (noOptions\<lparr>eventdate := Some ''december 25''\<rparr>)) = None \<and>
   last (fst (run sampleRuntime (sampleEnv [allDayEvent ''e1'' ''CISC108-Smith-Virtual''])
     (noOptions\<lparr>eventdate := Some ''december 25''\<rparr>))) = FollowUp msgFailed \<and>
   FollowUp msgNoMatch \<notin> set (fst (run sampleRuntime (sampleEnv [allDayEvent ''e1'' ''CISC108-Smith-Virtual''])
     (noOptions\<lparr>eventdate := Some ''december 25''\<rparr>))) \<and>
   run sampleRuntime (sampleEnv []) (noOptions\<lparr>classname := Some ''cisc999''\<rparr>) =
     ([DbConnect, Reply msgAuthenticating False, LoadToken, ProviderQuery, FollowUp msgNoEvents],
      Returned) \<and>
   last (fst (run sampleRuntime (sampleEnv sevenEvents) (noOptions\<lparr>classname := Some ''cisc999''\<rparr>))) =
     FollowUp msgNoMatch"
  by code_simp

lemma daysOfWeekMap_None:
  "x \<notin> set [''sunday'', ''monday'', ''tuesday'', ''wednesday'', ''thursday'', ''friday'', ''saturday''] \<Longrightarrow>
   daysOfWeekMap x = None"
  by (simp add: daysOfWeekMap_def)

lemma filteredEvents_none:
  "(\<And>event. filterCallback rt c event \<noteq> Inr True) \<Longrightarrow>
   filteredEvents rt c events = Inr r \<Longrightarrow> r = []"
proof (induction events arbitrary: r)
  case Nil
  then show ?case by simp
next
  case (Cons event events)
  from Cons.prems(1)[of event] Cons.prems(2) Cons.IH[OF Cons.prems(1)]
  show ?case by (auto split: sum.splits if_splits)
qed

text \<open>
  C10, as the code has it. The option \<^verbatim>\<open>dayofweek\<close> is put in lower case and never
  validated. For a value that is not empty and whose lower-case form is not one of the
  seven weekday names: the validation gives what it gives without the option; the weekday
  predicate is false for every event; a filter that returns a sequence returns the empty
  one; and in an authorised invocation in which the provider returns at least one event,
  each with a summary, and the filter does not throw, the events are stored and the only
  follow-up is the message that no events match the filters.
\<close>

theorem C10_unrecognised_weekday:
  assumes d: "dayofweek opts = Some d"
    and ne: "d \<noteq> []"
    and un: "toLowerCase d \<notin> set [''sunday'', ''monday'', ''tuesday'', ''wednesday'',
               ''thursday'', ''friday'', ''saturday'']"
  shows "validate (readOptions opts) = validate (readOptions (opts\<lparr>dayofweek := None\<rparr>)) \<and>
         \<not> matchDayOfWeek rt (readOptions opts) event \<and>
         (\<forall>r. filteredEvents rt (readOptions opts) events = Inr r \<longrightarrow> r = []) \<and>
         (dbConnects w \<and> validate (readOptions opts) = None \<and> snd (authorize w) \<and>
          provider w = Items (Some events) \<and> events \<noteq> [] \<and> (\<forall>e\<in>set events. summary e \<noteq> None) \<and>
          filteredEvents rt (readOptions opts) events \<noteq> Inl TypeError \<longrightarrow>
            run rt w opts =
              ([DbConnect, Reply msgAuthenticating False] @ fst (authorize w) @
               ProviderQuery # map (\<lambda>e. DbUpsert (projr (eventData rt e))) events @
               [FollowUp msgNoMatch], Returned))"
proof -
  have dw: "dayOfWeek (readOptions opts) = toLowerCase d"
    using d by (simp add: readOptions_def orEmpty_def)
  have dne: "toLowerCase d \<noteq> []" using ne by (simp add: toLowerCase_def)
  have v: "validate (readOptions opts) = validate (readOptions (opts\<lparr>dayofweek := None\<rparr>))"
    by (simp add: validate_def readOptions_def)
  have m: "\<not> matchDayOfWeek rt (readOptions opts) ev" for ev
    using dne daysOfWeekMap_None[OF un]
    by (simp add: matchDayOfWeek_def dw split: option.splits)
  have cb: "filterCallback rt (readOptions opts) ev \<noteq> Inr True" for ev
    using m[of ev] by (auto simp: filterCallback_def split: sum.splits)
  have f: "r = []" if "filteredEvents rt (readOptions opts) events = Inr r" for r
    using cb that by (rule filteredEvents_none)
  have r: "run rt w opts =
              ([DbConnect, Reply msgAuthenticating False] @ fst (authorize w) @
               ProviderQuery # map (\<lambda>e. DbUpsert (projr (eventData rt e))) events @
               [FollowUp msgNoMatch], Returned)"
    if h: "dbConnects w \<and> validate (readOptions opts) = None \<and> snd (authorize w) \<and>
          provider w = Items (Some events) \<and> events \<noteq> [] \<and> (\<forall>e\<in>set events. summary e \<noteq> None) \<and>
          filteredEvents rt (readOptions opts) events \<noteq> Inl TypeError"
  proof -
    from h obtain x where "filteredEvents rt (readOptions opts) events = Inr x"
      by (cases "filteredEvents rt (readOptions opts) events") (auto intro: error.exhaust)
    with f have "filteredEvents rt (readOptions opts) events = Inr []" by blast
    with h show ?thesis
      using run_listing[of w opts rt] by (simp add: listEvents_no_match)
  qed
  from v m f r show ?thesis by blast
qed

theorem C10_unrecognised_weekday_witness:
  "\<not> matchDayOfWeek sampleRuntime (readOptions (noOptions\<lparr>dayofweek := Some ''Funday''\<rparr>))
        (timedEvent ''e1'' ''CISC108-Smith-Virtual'') \<and>
   last (fst (run sampleRuntime (sampleEnv sevenEvents) (noOptions\<lparr>dayofweek := Some ''Funday''\<rparr>))) =
     FollowUp msgNoMatch"
proof -
  let ?o = "noOptions\<lparr>dayofweek := Some ''Funday''\<rparr>"
  have d: "dayofweek ?o = Some ''Funday''" by simp
  have ne: "''Funday'' \<noteq> []" by simp
  have un: "toLowerCase ''Funday'' \<notin> set [''sunday'', ''monday'', ''tuesday'', ''wednesday'',
               ''thursday'', ''friday'', ''saturday'']"
    by code_simp
  have h: "dbConnects (sampleEnv sevenEvents) \<and> validate (readOptions ?o) = None \<and>
          snd (authorize (sampleEnv sevenEvents)) \<and>
          provider (sampleEnv sevenEvents) = Items (Some sevenEvents) \<and> sevenEvents \<noteq> [] \<and>
          (\<forall>e\<in>set sevenEvents. summary e \<noteq> None) \<and>
          filteredEvents sampleRuntime (readOptions ?o) sevenEvents \<noteq> Inl TypeError"
  proof (intro conjI)
    show "validate (readOptions ?o) = None" by code_simp
    show "filteredEvents sampleRuntime (readOptions ?o) sevenEvents \<noteq> Inl TypeError" by code_simp
  qed (simp_all add: sampleEnv_def authorize_def sevenEvents_def timedEvent_def)
  from C10_unrecognised_weekday[OF d ne un, where rt = sampleRuntime
      and event = "timedEvent ''e1'' ''CISC108-Smith-Virtual''" and events = sevenEvents
      and w = "sampleEnv sevenEvents"] h
  show ?thesis by simp
qed

text \<open>
  C10 as stated fails. \<^verbatim>\<open>Monday\<close> is not one of the seven lower-case names, yet the
  predicate is true for an event on a Monday and the paged view opens; and with the
  unrecognised \<^verbatim>\<open>funday\<close> and no event in the window the user is told that no events
  were found, not that none matched.
\<close>

theorem C10_capitalised_weekday_counterexample:
  "''Monday'' \<notin> set [''sunday'', ''monday'', ''tuesday'', ''wednesday'', ''thursday'', ''friday'',
      ''saturday''] \<and>
   matchDayOfWeek sampleRuntime (readOptions (noOptions\<lparr>dayofweek := Some ''Monday''\<rparr>))
     (timedEvent ''e1'' ''CISC108-Smith-Virtual'') \<and>
   FollowUp msgNoMatch \<notin> set (fst (run sampleRuntime (sampleEnv sevenEvents)
     (noOptions\<lparr>dayofweek := Some ''Monday''\<rparr>))) \<and>
   CreateCollector \<in> set (fst (run sampleRuntime (sampleEnv sevenEvents)
     (noOptions\<lparr>dayofweek := Some ''Monday''\<rparr>))) \<and>
   run sampleRuntime (sampleEnv []) (noOptions\<lparr>dayofweek := Some ''funday''\<rparr>) =
     ([DbConnect, Reply msgAuthenticating False, LoadToken, ProviderQuery, FollowUp msgNoEvents],
      Returned)"
  by code_simp

end
